theory Spec2Isabelle
  imports Main
begin

section \<open>Strings: the functions of Go's \<open>strings\<close> package that pathfmt calls\<close>

text \<open>
  A Go string is a sequence of bytes, here \<^typ>\<open>string\<close> (a list of 8-bit characters).
  \<open>strings.HasPrefix(s, prefix)\<close> is \<open>len(s) >= len(prefix) && s[:len(prefix)] == prefix\<close>,
  \<open>strings.TrimPrefix\<close> removes the prefix once when it is there; the suffix functions
  are the mirror images.
\<close>

definition HasPrefix :: "string \<Rightarrow> string \<Rightarrow> bool" where
  "HasPrefix s pre \<longleftrightarrow> length pre \<le> length s \<and> take (length pre) s = pre"

definition HasSuffix :: "string \<Rightarrow> string \<Rightarrow> bool" where
  "HasSuffix s suf \<longleftrightarrow> length suf \<le> length s \<and> drop (length s - length suf) s = suf"

definition TrimPrefix :: "string \<Rightarrow> string \<Rightarrow> string" where
  "TrimPrefix s pre = (if HasPrefix s pre then drop (length pre) s else s)"

definition TrimSuffix :: "string \<Rightarrow> string \<Rightarrow> string" where
  "TrimSuffix s suf = (if HasSuffix s suf then take (length s - length suf) s else s)"

text \<open>
  \<open>strings.Split(s, sep)\<close> for a separator of one byte, the only way pathfmt calls it:
  the substrings between the separators, one more than there are separators, so the
  empty string splits into one empty token.
\<close>

fun Split :: "string \<Rightarrow> char \<Rightarrow> string list" where
  "Split [] c = [[]]"
| "Split (x # xs) c =
     (if x = c then [] # Split xs c
      else (case Split xs c of [] \<Rightarrow> [[x]] | tok # toks \<Rightarrow> (x # tok) # toks))"

text \<open>\<open>strings.Join(elems, sep)\<close>: the elements with \<open>sep\<close> between neighbours.\<close>

fun Join :: "string list \<Rightarrow> string \<Rightarrow> string" where
  "Join [] sep = []"
| "Join [x] sep = x"
| "Join (x # y # ys) sep = x @ sep @ Join (y # ys) sep"

text \<open>\<open>func split(s string) []string\<close>, the same in both versions of the package.\<close>

definition split :: "string \<Rightarrow> string list" where
  "split s = Split (TrimPrefix s ''/'') CHR ''/''"

section \<open>The template, strict version (format.go)\<close>

text \<open>
  \<open>type part struct { static string; variable string }\<close> and
  \<open>type Format struct { str string; parts []part }\<close>. A field left out of a Go struct
  literal is the empty string.
\<close>

record part =
  static :: string
  variable :: string

record Format =
  str :: string
  parts :: "part list"

text \<open>The test of \<open>New\<close> on a token, and the name it stores for a token that passes.\<close>

definition braced :: "string \<Rightarrow> bool" where
  "braced s \<longleftrightarrow> HasPrefix s ''{'' \<and> HasSuffix s ''}''"

definition unbrace :: "string \<Rightarrow> string" where
  "unbrace s = TrimSuffix (TrimPrefix s ''{'') ''}''"

definition New :: "string \<Rightarrow> Format" where
  "New path =
     \<lparr> str = path,
       parts = map (\<lambda>s. if braced s then \<lparr> static = [], variable = unbrace s \<rparr>
                         else \<lparr> static = s, variable = [] \<rparr>) (split path) \<rparr>"

section \<open>Errors\<close>

text \<open>
  Go's reflect.Kind, for the messages of \<open>ToStruct\<close> and \<open>FromStruct\<close> and the switch of
  \<open>ToStruct\<close>. Each name carries a \<open>K\<close> at its end: \<open>Int\<close> and others are names of HOL.
\<close>

datatype Kind =
    InvalidK | BoolK | IntK | Int8K | Int16K | Int32K | Int64K
  | UintK | Uint8K | Uint16K | Uint32K | Uint64K | UintptrK
  | Float32K | Float64K | Complex64K | Complex128K
  | ArrayK | ChanK | FuncK | InterfaceK | MapK | PtrK | SliceK | StringK | StructK | UnsafePointerK

text \<open>
  Every error the package returns, with the values its message is formatted from:
  \<^item> \<open>MismatchError str path expected got\<close>: strict \<open>ToMap\<close>,
    \<open>"expected format %q: got %q: expected string %q, got %q"\<close>;
  \<^item> \<open>ExpectedPointer k\<close>, \<open>ExpectedStruct k\<close>: \<open>"expected pointer, got %v"\<close>,
    \<open>"expected struct, got %v"\<close>;
  \<^item> \<open>PrivateTagged tag name\<close>: \<open>"private fields with %q tags are unexported: %q"\<close>;
  \<^item> \<open>FieldNotFound field\<close>: \<open>"field %q not found"\<close>;
  \<^item> \<open>NumError fn s\<close>: the error of a strconv parser, passed on unchanged;
  \<^item> \<open>Panic msg\<close>: a run-time panic of the reflect package.
\<close>

datatype error =
    MismatchError string string string string
  | ExpectedPointer Kind
  | ExpectedStruct Kind
  | PrivateTagged string string
  | FieldNotFound string
  | NumError string string
  | Panic string

section \<open>ToMap, strict version (format.go)\<close>

text \<open>
  The loop \<open>for i, s := range splt\<close>: \<open>i\<close> is the index of the token \<open>s\<close>, the remaining
  tokens are the list argument, \<open>m\<close> is the map built so far. The loop leaves at
  \<open>i >= len(f.parts)\<close>, and returns the error at the first static part that differs
  from its token.
\<close>

fun ToMap_loop ::
  "Format \<Rightarrow> string \<Rightarrow> nat \<Rightarrow> string list \<Rightarrow> (string \<rightharpoonup> string) \<Rightarrow> error + (string \<rightharpoonup> string)"
where
  "ToMap_loop f path i [] m = Inr m"
| "ToMap_loop f path i (s # ss) m =
     (if i \<ge> length (parts f) then Inr m
      else if variable (parts f ! i) \<noteq> [] then
        ToMap_loop f path (Suc i) ss (m(variable (parts f ! i) \<mapsto> s))
      else if static (parts f ! i) \<noteq> s then
        Inl (MismatchError (str f) path (static (parts f ! i)) s)
      else ToMap_loop f path (Suc i) ss m)"

definition ToMap :: "Format \<Rightarrow> string \<Rightarrow> error + (string \<rightharpoonup> string)" where
  "ToMap f path = ToMap_loop f path 0 (split path) Map.empty"

section \<open>The template and ToMap, lenient version (the earlier format.go)\<close>

text \<open>
  \<open>type namedPart struct { name string; index int }\<close> and
  \<open>type Format struct { namedParts []namedPart }\<close>: only the braced tokens are kept, each
  with its position. An index comes from \<open>range\<close>, so it is never negative.
\<close>

record namedPart =
  name :: string
  index :: nat

record Format_lenient =
  namedParts :: "namedPart list"

definition New_lenient :: "string \<Rightarrow> Format_lenient" where
  "New_lenient path =
     \<lparr> namedParts =
         map (\<lambda>(i, p). \<lparr> name = unbrace p, index = i \<rparr>)
           (filter (\<lambda>(i, p). braced p) (enumerate 0 (split path))) \<rparr>"

definition ToMap_lenient :: "Format_lenient \<Rightarrow> string \<Rightarrow> (string \<rightharpoonup> string)" where
  "ToMap_lenient f path =
     (let ps = split path
      in fold (\<lambda>np m. if index np < length ps then m(name np \<mapsto> ps ! index np) else m)
           (namedParts f) Map.empty)"

section \<open>Struct values, as the reflect package shows them\<close>

text \<open>
  The value of a field. The code sets a field through \<open>SetBool\<close>, \<open>SetFloat\<close>, \<open>SetInt\<close>,
  \<open>SetString\<close> and \<open>SetUint\<close> and looks into no other value, so floating-point numbers
  and the values of every other kind (structs, slices, maps, ...) are of a type \<^typ>\<open>'a\<close>
  that is left open.
\<close>

datatype 'a val =
    BoolV bool
  | IntV int
  | UintV nat
  | FloatV 'a
  | StringV string
  | OtherV 'a

text \<open>
  One field of a struct: \<open>Name\<close> is \<open>tf.Name\<close>, \<open>Tag\<close> is \<open>tf.Tag.Get("path")\<close> (the empty
  string when the field has no such tag), \<open>Exported\<close> says whether the field's name is
  exported, \<open>Kind\<close> is \<open>ef.Kind()\<close> and \<open>Val\<close> the field's current value.
\<close>

record 'a field =
  Name :: string
  Tag :: string
  Exported :: bool
  Kind :: Kind
  Val :: "'a val"

text \<open>
  What the \<open>interface{}\<close> argument of \<open>ToStruct\<close> and \<open>FromStruct\<close> holds: a struct, some
  other value (only its kind matters), or a pointer to either. A nil pointer is a pointer
  to a value of kind \<open>Invalid\<close>, as \<open>Elem\<close> reports it, and a nil interface is a value of
  kind \<open>Invalid\<close>.
\<close>

datatype 'a object = StructObj "'a field list" | OtherObj Kind

datatype 'a iface = PtrTo "'a object" | Direct "'a object"

fun object_Kind :: "'a object \<Rightarrow> Kind" where
  "object_Kind (StructObj fs) = StructK"
| "object_Kind (OtherObj k) = k"

text \<open>
  \<open>ef.CanSet()\<close> for a field reached through a pointer to the struct: the struct is
  addressable, so the field can be set exactly when it is exported.
\<close>

definition CanSet :: "'a field \<Rightarrow> bool" where
  "CanSet ef \<longleftrightarrow> Exported ef"

text \<open>
  \<open>tft.Bits()\<close>, the size of a numeric type in bits; \<open>int\<close>, \<open>uint\<close> and \<open>uintptr\<close> are
  taken at 64 bits. The code asks it only of the numeric kinds.
\<close>

definition Bits :: "Kind \<Rightarrow> nat" where
  "Bits k =
     (if k \<in> {Int8K, Uint8K} then 8
      else if k \<in> {Int16K, Uint16K} then 16
      else if k \<in> {Int32K, Uint32K, Float32K} then 32
      else if k \<in> {IntK, Int64K, UintK, Uint64K, UintptrK, Float64K, Complex64K} then 64
      else if k = Complex128K then 128
      else 0)"

text \<open>
  The functions of Go's standard library that the code calls and that are no part of the
  package: the four parsers of strconv (with the base and bit size they are called with)
  and the \<open>%v\<close> formatting of a value that is not a string. They are parameters of the
  model: every theorem below holds whatever they return.
\<close>

record 'a stdlib =
  ParseBool :: "string \<Rightarrow> error + bool"
  ParseFloat :: "string \<Rightarrow> nat \<Rightarrow> error + 'a"
  ParseInt :: "string \<Rightarrow> nat \<Rightarrow> nat \<Rightarrow> error + int"
  ParseUint :: "string \<Rightarrow> nat \<Rightarrow> nat \<Rightarrow> error + nat"
  Sprint :: "'a val \<Rightarrow> string"

section \<open>ToStruct\<close>

text \<open>
  The \<open>switch ef.Kind()\<close> of \<open>ToStruct\<close> for one field \<open>ef\<close> and the string \<open>v\<close> found for
  its tag: the field with its new value, the error of the parser, or the field as it was
  when no case of the switch matches.
\<close>

definition setField :: "'a stdlib \<Rightarrow> 'a field \<Rightarrow> string \<Rightarrow> error + 'a field" where
  "setField L ef v =
     (if Kind ef = BoolK then
        (case ParseBool L v of Inl err \<Rightarrow> Inl err | Inr b \<Rightarrow> Inr (ef\<lparr>Val := BoolV b\<rparr>))
      else if Kind ef \<in> {Float32K, Float64K} then
        (case ParseFloat L v (Bits (Kind ef)) of
           Inl err \<Rightarrow> Inl err | Inr x \<Rightarrow> Inr (ef\<lparr>Val := FloatV x\<rparr>))
      else if Kind ef \<in> {IntK, Int8K, Int16K, Int32K} then
        (case ParseInt L v 0 (Bits (Kind ef)) of
           Inl err \<Rightarrow> Inl err | Inr i \<Rightarrow> Inr (ef\<lparr>Val := IntV i\<rparr>))
      else if Kind ef = Int64K then
        (case ParseInt L v 0 (Bits (Kind ef)) of
           Inl err \<Rightarrow> Inl err | Inr i \<Rightarrow> Inr (ef\<lparr>Val := IntV i\<rparr>))
      else if Kind ef = StringK then Inr (ef\<lparr>Val := StringV v\<rparr>)
      else if Kind ef \<in> {UintK, Uint8K, Uint16K, Uint32K, Uint64K, UintptrK} then
        (case ParseUint L v 0 (Bits (Kind ef)) of
           Inl err \<Rightarrow> Inl err | Inr i \<Rightarrow> Inr (ef\<lparr>Val := UintV i\<rparr>))
      else Inr ef)"

text \<open>
  The loop \<open>for i := 0; i < typ.NumField(); i++\<close> over the fields still to visit. It
  returns the fields as the loop leaves them together with the error, if any: a
  \<open>return\<close> inside the loop leaves the remaining fields as they are.
\<close>

fun ToStruct_fields ::
  "'a stdlib \<Rightarrow> (string \<rightharpoonup> string) \<Rightarrow> 'a field list \<Rightarrow> 'a field list \<times> error option"
where
  "ToStruct_fields L m [] = ([], None)"
| "ToStruct_fields L m (ef # rest) =
     (if \<not> CanSet ef then
        (if Tag ef \<noteq> [] then (ef # rest, Some (PrivateTagged (Tag ef) (Name ef)))
         else (case ToStruct_fields L m rest of (rest', r) \<Rightarrow> (ef # rest', r)))
      else
        (case m (Tag ef) of
           None \<Rightarrow> (case ToStruct_fields L m rest of (rest', r) \<Rightarrow> (ef # rest', r))
         | Some v \<Rightarrow>
             (case setField L ef v of
                Inl err \<Rightarrow> (ef # rest, Some err)
              | Inr ef' \<Rightarrow>
                  (case ToStruct_fields L m rest of (rest', r) \<Rightarrow> (ef' # rest', r)))))"

text \<open>
  The body of \<open>ToStruct\<close> after the call of \<open>ToMap\<close>, the same text in both versions: the
  two kind checks, then the loop. The result is the argument as the call leaves it and
  the error returned (\<open>None\<close> for \<open>nil\<close>).
\<close>

fun ToStruct_body ::
  "'a stdlib \<Rightarrow> (string \<rightharpoonup> string) \<Rightarrow> 'a iface \<Rightarrow> 'a iface \<times> error option"
where
  "ToStruct_body L m (Direct obj) = (Direct obj, Some (ExpectedPointer (object_Kind obj)))"
| "ToStruct_body L m (PtrTo (OtherObj k)) = (PtrTo (OtherObj k), Some (ExpectedStruct k))"
| "ToStruct_body L m (PtrTo (StructObj fs)) =
     (case ToStruct_fields L m fs of (fs', r) \<Rightarrow> (PtrTo (StructObj fs'), r))"

text \<open>Strict version: the error of \<open>ToMap\<close> is returned before the argument is looked at.\<close>

definition ToStruct :: "'a stdlib \<Rightarrow> Format \<Rightarrow> string \<Rightarrow> 'a iface \<Rightarrow> 'a iface \<times> error option" where
  "ToStruct L f s x =
     (case ToMap f s of Inl err \<Rightarrow> (x, Some err) | Inr m \<Rightarrow> ToStruct_body L m x)"

text \<open>Lenient version: \<open>ToMap\<close> cannot fail.\<close>

definition ToStruct_lenient ::
  "'a stdlib \<Rightarrow> Format_lenient \<Rightarrow> string \<Rightarrow> 'a iface \<Rightarrow> 'a iface \<times> error option"
where
  "ToStruct_lenient L f s x = ToStruct_body L (ToMap_lenient f s) x"

section \<open>FromStruct (format.go)\<close>

text \<open>
  \<open>fmt.Sprintf("%v", v)\<close>: a string is printed as it is, every other value as the
  library prints it. The field types are Go's predeclared types, which have no
  \<open>String\<close> method of their own.
\<close>

definition Sprintf_v :: "'a stdlib \<Rightarrow> 'a val \<Rightarrow> string" where
  "Sprintf_v L v = (case v of StringV s \<Rightarrow> s | _ \<Rightarrow> Sprint L v)"

text \<open>
  The loop of \<open>structField\<close>: the first field whose tag is \<open>fld\<close>. \<open>Interface()\<close> panics
  on a value that was read from an unexported field.
\<close>

fun structField_loop :: "'a stdlib \<Rightarrow> 'a field list \<Rightarrow> string \<Rightarrow> error + string" where
  "structField_loop L [] fld = Inl (FieldNotFound fld)"
| "structField_loop L (tf # rest) fld =
     (if Tag tf = fld then
        (if Exported tf then Inr (Sprintf_v L (Val tf))
         else Inl (Panic ''reflect.Value.Interface: cannot return value obtained from unexported field or method''))
      else structField_loop L rest fld)"

fun structField :: "'a stdlib \<Rightarrow> 'a iface \<Rightarrow> string \<Rightarrow> error + string" where
  "structField L (Direct (StructObj fs)) fld = structField_loop L fs fld"
| "structField L (Direct (OtherObj k)) fld = Inl (ExpectedStruct k)"
| "structField L (PtrTo obj) fld = Inl (ExpectedStruct PtrK)"

text \<open>The loop \<open>for i, p := range f.parts\<close> of \<open>FromStruct\<close>, filling \<open>parts[i]\<close> in order.\<close>

fun FromStruct_loop :: "'a stdlib \<Rightarrow> 'a iface \<Rightarrow> part list \<Rightarrow> error + string list" where
  "FromStruct_loop L s [] = Inr []"
| "FromStruct_loop L s (p # ps) =
     (if variable p \<noteq> [] then
        (case structField L s (variable p) of
           Inl err \<Rightarrow> Inl err
         | Inr v \<Rightarrow> (case FromStruct_loop L s ps of Inl err \<Rightarrow> Inl err | Inr vs \<Rightarrow> Inr (v # vs)))
      else
        (case FromStruct_loop L s ps of Inl err \<Rightarrow> Inl err | Inr vs \<Rightarrow> Inr (static p # vs)))"

definition FromStruct :: "'a stdlib \<Rightarrow> Format \<Rightarrow> 'a iface \<Rightarrow> error + string" where
  "FromStruct L f s =
     (case FromStruct_loop L s (parts f) of
        Inl err \<Rightarrow> Inl err
      | Inr vs \<Rightarrow> Inr ((if HasPrefix (str f) ''/'' then ''/'' else []) @ Join vs ''/''))"

section \<open>The struct of the package's tests\<close>

text \<open>
  \<open>type MyPath struct { A string `path:"a"`; B int `path:"b"`; C float64 `path:"c"`;
  D bool `path:"d"` }\<close> of \<open>TestToStruct\<close>, with the four values as parameters.
\<close>

definition MyPath :: "'a val \<Rightarrow> 'a val \<Rightarrow> 'a val \<Rightarrow> 'a val \<Rightarrow> 'a field list" where
  "MyPath a b c d =
     [\<lparr> Name = ''A'', Tag = ''a'', Exported = True, Kind = StringK, Val = a \<rparr>,
      \<lparr> Name = ''B'', Tag = ''b'', Exported = True, Kind = IntK, Val = b \<rparr>,
      \<lparr> Name = ''C'', Tag = ''c'', Exported = True, Kind = Float64K, Val = c \<rparr>,
      \<lparr> Name = ''D'', Tag = ''d'', Exported = True, Kind = BoolK, Val = d \<rparr>]"

section \<open>A stand-in for the library, for concrete inputs\<close>

text \<open>
  To evaluate the model at concrete inputs the library parameter needs a value. This one
  reads Go's boolean literals and decimal integers that fit the bit size, and rejects
  every other string, floating-point numerals included; it prints a value that is not a
  string as the empty string. No theorem about the code depends on it: it only shows that
  their hypotheses can be met.
\<close>

definition digit :: "char \<Rightarrow> nat option" where
  "digit c = map_of (zip ''0123456789'' [0, 1, 2, 3, 4, 5, 6, 7, 8, 9]) c"

fun decimal :: "string \<Rightarrow> nat \<Rightarrow> nat option" where
  "decimal [] acc = Some acc"
| "decimal (c # cs) acc = (case digit c of None \<Rightarrow> None | Some d \<Rightarrow> decimal cs (10 * acc + d))"

definition dec_ParseUint :: "string \<Rightarrow> nat \<Rightarrow> nat \<Rightarrow> error + nat" where
  "dec_ParseUint s base bits =
     (if s = [] then Inl (NumError ''ParseUint'' s)
      else case decimal s 0 of
             None \<Rightarrow> Inl (NumError ''ParseUint'' s)
           | Some n \<Rightarrow> if n < 2 ^ bits then Inr n else Inl (NumError ''ParseUint'' s))"

definition dec_ParseInt :: "string \<Rightarrow> nat \<Rightarrow> nat \<Rightarrow> error + int" where
  "dec_ParseInt s base bits =
     (let neg = HasPrefix s ''-'';
          ds = (if neg then TrimPrefix s ''-'' else TrimPrefix s ''+'')
      in if ds = [] then Inl (NumError ''ParseInt'' s)
         else case decimal ds 0 of
                None \<Rightarrow> Inl (NumError ''ParseInt'' s)
              | Some n \<Rightarrow>
                  if neg \<and> n \<le> 2 ^ (bits - 1) then Inr (- int n)
                  else if \<not> neg \<and> n < 2 ^ (bits - 1) then Inr (int n)
                  else Inl (NumError ''ParseInt'' s))"

definition lit_ParseBool :: "string \<Rightarrow> error + bool" where
  "lit_ParseBool s =
     (if s \<in> set [''1'', ''t'', ''T'', ''TRUE'', ''true'', ''True''] then Inr True
      else if s \<in> set [''0'', ''f'', ''F'', ''FALSE'', ''false'', ''False''] then Inr False
      else Inl (NumError ''ParseBool'' s))"

definition dec_stdlib :: "unit stdlib" where
  "dec_stdlib =
     \<lparr> ParseBool = lit_ParseBool,
       ParseFloat = (\<lambda>s bits. Inl (NumError ''ParseFloat'' s)),
       ParseInt = dec_ParseInt,
       ParseUint = dec_ParseUint,
       Sprint = (\<lambda>v. []) \<rparr>"

section \<open>Notions for the proofs\<close>

definition bind :: "(string \<times> string) option \<Rightarrow> (string \<rightharpoonup> string) \<Rightarrow> (string \<rightharpoonup> string)" where
  "bind e m = (case e of None \<Rightarrow> m | Some (k, v) \<Rightarrow> m(k \<mapsto> v))"

definition last_bound :: "(string \<times> string) option list \<Rightarrow> string \<Rightarrow> string \<Rightarrow> bool" where
  "last_bound es k v \<longleftrightarrow>
     (\<exists>i<length es. es ! i = Some (k, v) \<and> (\<forall>j. i < j \<and> j < length es \<longrightarrow> (\<forall>v'. es ! j \<noteq> Some (k, v'))))"

definition unbound :: "(string \<times> string) option list \<Rightarrow> string \<Rightarrow> bool" where
  "unbound es k \<longleftrightarrow> (\<forall>j<length es. \<forall>v'. es ! j \<noteq> Some (k, v'))"

definition part_binding :: "part \<times> string \<Rightarrow> (string \<times> string) option" where
  "part_binding ps = (if variable (fst ps) \<noteq> [] then Some (variable (fst ps), snd ps) else None)"

definition token_binding :: "string \<times> string \<Rightarrow> (string \<times> string) option" where
  "token_binding ts = (if braced (fst ts) then Some (unbrace (fst ts), snd ts) else None)"

text \<open>
  The kinds for which the switch of \<open>ToStruct\<close> has a case: bool, the signed and unsigned
  integers, the floating-point numbers and string.
\<close>

definition supported :: "Kind set" where
  "supported = {BoolK, Float32K, Float64K, IntK, Int8K, Int16K, Int32K, Int64K, StringK,
                UintK, Uint8K, Uint16K, Uint32K, Uint64K, UintptrK}"

section \<open>Splitting\<close>

lemma Split_not_Nil [simp]: "Split s c \<noteq> []"
  by (induction s) (auto split: list.splits)

lemma split_not_Nil [simp]: "split s \<noteq> []"
  by (simp add: split_def)

lemma split_Nil [simp]: "split [] = [[]]"
  by (simp add: split_def TrimPrefix_def HasPrefix_def)

lemma unbound_snoc: "unbound (es @ [e]) k \<longleftrightarrow> unbound es k \<and> (\<forall>v'. e \<noteq> Some (k, v'))"
  by (auto simp: unbound_def nth_append less_Suc_eq)

lemma last_bound_snoc:
  "last_bound (es @ [e]) k v \<longleftrightarrow> e = Some (k, v) \<or> (last_bound es k v \<and> (\<forall>v'. e \<noteq> Some (k, v')))"
proof
  assume "last_bound (es @ [e]) k v"
  then show "e = Some (k, v) \<or> (last_bound es k v \<and> (\<forall>v'. e \<noteq> Some (k, v')))"
    unfolding last_bound_def
    by (auto simp: nth_append less_Suc_eq split: if_splits)
next
  assume "e = Some (k, v) \<or> (last_bound es k v \<and> (\<forall>v'. e \<noteq> Some (k, v')))"
  then show "last_bound (es @ [e]) k v"
  proof
    assume "e = Some (k, v)"
    then have "(es @ [e]) ! length es = Some (k, v)" by simp
    moreover have "\<forall>j. length es < j \<and> j < length (es @ [e]) \<longrightarrow> (\<forall>v'. (es @ [e]) ! j \<noteq> Some (k, v'))"
      by auto
    ultimately show ?thesis
      unfolding last_bound_def by (intro exI[of _ "length es"]) simp
  next
    assume a: "last_bound es k v \<and> (\<forall>v'. e \<noteq> Some (k, v'))"
    then obtain i where i: "i < length es" "es ! i = Some (k, v)"
      "\<forall>j. i < j \<and> j < length es \<longrightarrow> (\<forall>v'. es ! j \<noteq> Some (k, v'))"
      unfolding last_bound_def by blast
    have "\<forall>j. i < j \<and> j < length (es @ [e]) \<longrightarrow> (\<forall>v'. (es @ [e]) ! j \<noteq> Some (k, v'))"
      using i(3) a by (auto simp: nth_append less_Suc_eq)
    with i(1,2) show ?thesis
      unfolding last_bound_def by (intro exI[of _ i]) (simp add: nth_append)
  qed
qed

lemma fold_bind_lookup:
  "fold bind es m k = Some v \<longleftrightarrow> last_bound es k v \<or> (m k = Some v \<and> unbound es k)"
proof (induction es rule: rev_induct)
  case Nil
  then show ?case by (simp add: last_bound_def unbound_def)
next
  case (snoc e es)
  show ?case
  proof (cases e)
    case None
    then show ?thesis
      using snoc.IH by (simp add: bind_def last_bound_snoc unbound_snoc)
  next
    case (Some kv)
    obtain k' v' where kv: "kv = (k', v')" by (cases kv)
    show ?thesis
      using snoc.IH Some kv by (auto simp: bind_def last_bound_snoc unbound_snoc)
  qed
qed

lemma bind_simps [simp]: "bind None m = m" "bind (Some (k, v)) m = m(k \<mapsto> v)"
  by (simp_all add: bind_def)

lemma part_binding_simps:
  "variable p \<noteq> [] \<Longrightarrow> part_binding (p, s) = Some (variable p, s)"
  "variable p = [] \<Longrightarrow> part_binding (p, s) = None"
  by (simp_all add: part_binding_def)

lemma ToMap_loop_Inr_fold:
  "ToMap_loop f path i toks m = Inr m' \<Longrightarrow>
     m' = fold bind (map part_binding (zip (drop i (parts f)) toks)) m"
proof (induction toks arbitrary: i m)
  case Nil
  then show ?case by simp
next
  case (Cons s ss)
  show ?case
  proof (cases "i < length (parts f)")
    case False
    with Cons.prems show ?thesis by simp
  next
    case True
    then have d: "drop i (parts f) = parts f ! i # drop (Suc i) (parts f)"
      by (simp add: Cons_nth_drop_Suc)
    show ?thesis
    proof (cases "variable (parts f ! i) \<noteq> []")
      case True
      with Cons.prems \<open>i < length (parts f)\<close>
      have "ToMap_loop f path (Suc i) ss (m(variable (parts f ! i) \<mapsto> s)) = Inr m'" by simp
      then have "m' = fold bind (map part_binding (zip (drop (Suc i) (parts f)) ss))
                        (m(variable (parts f ! i) \<mapsto> s))"
        by (rule Cons.IH)
      also have "\<dots> = fold bind (map part_binding (zip (drop i (parts f)) (s # ss))) m"
        using True by (simp add: d part_binding_simps)
      finally show ?thesis .
    next
      case False
      with Cons.prems \<open>i < length (parts f)\<close>
      have "ToMap_loop f path (Suc i) ss m = Inr m'" by (simp split: if_splits)
      then have "m' = fold bind (map part_binding (zip (drop (Suc i) (parts f)) ss)) m"
        by (rule Cons.IH)
      also have "\<dots> = fold bind (map part_binding (zip (drop i (parts f)) (s # ss))) m"
        using False by (simp add: d part_binding_simps)
      finally show ?thesis .
    qed
  qed
qed

lemma ToMap_Inr_fold:
  "ToMap f path = Inr m \<Longrightarrow> m = fold bind (map part_binding (zip (parts f) (split path))) Map.empty"
  using ToMap_loop_Inr_fold[of f path 0 "split path" Map.empty m] by (simp add: ToMap_def)

lemma ToMap_loop_Inl_iff:
  "ToMap_loop f path i toks m = Inl e \<longleftrightarrow>
     (\<exists>j<length toks. i + j < length (parts f) \<and> variable (parts f ! (i + j)) = []
        \<and> static (parts f ! (i + j)) \<noteq> toks ! j
        \<and> (\<forall>j'<j. variable (parts f ! (i + j')) = [] \<longrightarrow> static (parts f ! (i + j')) = toks ! j')
        \<and> e = MismatchError (str f) path (static (parts f ! (i + j))) (toks ! j))"
  (is "?L i toks m \<longleftrightarrow> (\<exists>j<length toks. ?Q i toks j)")
proof (induction toks arbitrary: i m)
  case Nil
  then show ?case by simp
next
  case (Cons s ss)
  let ?bad = "variable (parts f ! i) = [] \<and> static (parts f ! i) \<noteq> s"
  have shift: "(\<exists>j<length (s # ss). ?Q i (s # ss) j) \<longleftrightarrow>
      (i < length (parts f) \<and> ?bad \<and> e = MismatchError (str f) path (static (parts f ! i)) s)
      \<or> (\<not> ?bad \<and> (\<exists>j<length ss. ?Q (Suc i) ss j))"
    (is "?A \<longleftrightarrow> ?B \<or> ?C")
  proof
    assume ?A
    then obtain j where j: "j < length (s # ss)" "?Q i (s # ss) j" by blast
    show "?B \<or> ?C"
    proof (cases j)
      case 0
      with j show ?thesis by simp
    next
      case (Suc j')
      with j have "\<not> ?bad" by auto
      moreover from j Suc have "j' < length ss \<and> ?Q (Suc i) ss j'"
        by (auto simp: less_Suc_eq_0_disj all_conj_distrib)
      ultimately show ?thesis by blast
    qed
  next
    assume "?B \<or> ?C"
    then show ?A
    proof
      assume ?B
      then have "0 < length (s # ss) \<and> ?Q i (s # ss) 0" by simp
      then show ?A by blast
    next
      assume ?C
      then obtain j where j: "\<not> ?bad" "j < length ss" "?Q (Suc i) ss j" by blast
      then have "Suc j < length (s # ss) \<and> ?Q i (s # ss) (Suc j)"
        by (auto simp: less_Suc_eq_0_disj)
      then show ?A by blast
    qed
  qed
  show ?case
    unfolding shift using Cons.IH[of "Suc i"]
    by (auto simp del: add_Suc_right add_Suc)
qed

lemma token_binding_simps:
  "braced t \<Longrightarrow> token_binding (t, s) = Some (unbrace t, s)"
  "\<not> braced t \<Longrightarrow> token_binding (t, s) = None"
  by (simp_all add: token_binding_def)

lemma if_fun_upd: "(\<lambda>a. if a = k then v else m a) = m(k := v)"
  by (simp add: fun_upd_def)

lemma fold_namedParts_beyond:
  "length toks \<le> n \<Longrightarrow>
   fold (\<lambda>np m. if index np < length toks then m(name np \<mapsto> toks ! index np) else m)
     (map (\<lambda>(i, p). \<lparr> name = unbrace p, index = i \<rparr>) (filter (\<lambda>(i, p). braced p) (enumerate n xs))) m = m"
  by (induction xs arbitrary: n m) auto

lemma fold_namedParts:
  "fold (\<lambda>np m. if index np < length toks then m(name np \<mapsto> toks ! index np) else m)
     (map (\<lambda>(i, p). \<lparr> name = unbrace p, index = i \<rparr>) (filter (\<lambda>(i, p). braced p) (enumerate n xs))) m
   = fold bind (map token_binding (zip xs (drop n toks))) m"
proof (induction xs arbitrary: n m)
  case Nil
  then show ?case by simp
next
  case (Cons x xs)
  show ?case
  proof (cases "n < length toks")
    case True
    then have d: "drop n toks = toks ! n # drop (Suc n) toks"
      by (simp add: Cons_nth_drop_Suc)
    show ?thesis
      using True Cons.IH[of "Suc n"] by (simp add: d token_binding_simps if_fun_upd)
  next
    case False
    then show ?thesis
      using fold_namedParts_beyond[of toks "Suc n" xs m] by simp
  qed
qed

lemma ToMap_lenient_fold:
  "ToMap_lenient (New_lenient t) path
     = fold bind (map token_binding (zip (split t) (split path))) Map.empty"
  using fold_namedParts[of "split path" 0 "split t" Map.empty]
  by (simp add: ToMap_lenient_def New_lenient_def)

lemma namedParts_New_lenient:
  "np \<in> set (namedParts (New_lenient t)) \<longleftrightarrow>
     index np < length (split t) \<and> braced (split t ! index np) \<and> name np = unbrace (split t ! index np)"
  by (cases np) (auto simp: New_lenient_def in_set_enumerate_eq image_iff)

lemma parts_New_binding:
  "map part_binding (zip (parts (New t)) toks)
     = map (\<lambda>ts. if braced (fst ts) \<and> unbrace (fst ts) \<noteq> [] then Some (unbrace (fst ts), snd ts) else None)
         (zip (split t) toks)"
  by (simp add: New_def zip_map1 part_binding_def split_beta)

lemma part_binding_eq_Some:
  "part_binding (p, s) = Some (k, v) \<longleftrightarrow> variable p = k \<and> k \<noteq> [] \<and> s = v"
  by (auto simp: part_binding_def)

lemma token_binding_eq_Some:
  "token_binding (t, s) = Some (k, v) \<longleftrightarrow> braced t \<and> unbrace t = k \<and> s = v"
  by (auto simp: token_binding_def)

lemma ToMap_lookup:
  assumes "ToMap f path = Inr m"
  shows "m k = Some v \<longleftrightarrow>
     k \<noteq> [] \<and> (\<exists>i. i < length (parts f) \<and> i < length (split path) \<and> variable (parts f ! i) = k
           \<and> split path ! i = v
           \<and> (\<forall>j. i < j \<and> j < length (parts f) \<and> j < length (split path) \<longrightarrow> variable (parts f ! j) \<noteq> k))"
proof -
  let ?es = "map part_binding (zip (parts f) (split path))"
  have m: "m = fold bind ?es Map.empty"
    using assms by (rule ToMap_Inr_fold)
  have "m k = Some v \<longleftrightarrow> last_bound ?es k v"
    unfolding m by (simp add: fold_bind_lookup)
  also have "\<dots> \<longleftrightarrow> (\<exists>i. i < length (parts f) \<and> i < length (split path)
        \<and> part_binding (parts f ! i, split path ! i) = Some (k, v)
        \<and> (\<forall>j. i < j \<and> j < length (parts f) \<and> j < length (split path)
              \<longrightarrow> (\<forall>v'. part_binding (parts f ! j, split path ! j) \<noteq> Some (k, v'))))"
    unfolding last_bound_def by (rule ex_cong1) auto
  also have "\<dots> \<longleftrightarrow> k \<noteq> [] \<and> (\<exists>i. i < length (parts f) \<and> i < length (split path) \<and> variable (parts f ! i) = k
           \<and> split path ! i = v
           \<and> (\<forall>j. i < j \<and> j < length (parts f) \<and> j < length (split path) \<longrightarrow> variable (parts f ! j) \<noteq> k))"
    unfolding part_binding_eq_Some by blast
  finally show ?thesis .
qed

lemma ToMap_lenient_lookup_tokens:
  "ToMap_lenient (New_lenient t) path k = Some v \<longleftrightarrow>
     (\<exists>i. i < length (split t) \<and> i < length (split path) \<and> braced (split t ! i) \<and> unbrace (split t ! i) = k
           \<and> split path ! i = v
           \<and> (\<forall>j. i < j \<and> j < length (split t) \<and> j < length (split path)
                 \<longrightarrow> \<not> (braced (split t ! j) \<and> unbrace (split t ! j) = k)))"
proof -
  let ?es = "map token_binding (zip (split t) (split path))"
  have "ToMap_lenient (New_lenient t) path k = Some v \<longleftrightarrow> last_bound ?es k v"
    unfolding ToMap_lenient_fold by (simp add: fold_bind_lookup)
  also have "\<dots> \<longleftrightarrow> (\<exists>i. i < length (split t) \<and> i < length (split path)
        \<and> token_binding (split t ! i, split path ! i) = Some (k, v)
        \<and> (\<forall>j. i < j \<and> j < length (split t) \<and> j < length (split path)
              \<longrightarrow> (\<forall>v'. token_binding (split t ! j, split path ! j) \<noteq> Some (k, v'))))"
    unfolding last_bound_def by (rule ex_cong1) auto
  also have "\<dots> \<longleftrightarrow> (\<exists>i. i < length (split t) \<and> i < length (split path) \<and> braced (split t ! i) \<and> unbrace (split t ! i) = k
           \<and> split path ! i = v
           \<and> (\<forall>j. i < j \<and> j < length (split t) \<and> j < length (split path)
                 \<longrightarrow> \<not> (braced (split t ! j) \<and> unbrace (split t ! j) = k)))"
    unfolding token_binding_eq_Some by blast
  finally show ?thesis .
qed

lemma ToMap_lenient_lookup:
  "ToMap_lenient (New_lenient t) path k = Some v \<longleftrightarrow>
     (\<exists>np \<in> set (namedParts (New_lenient t)). name np = k \<and> index np < length (split path)
          \<and> split path ! index np = v
          \<and> (\<forall>np' \<in> set (namedParts (New_lenient t)).
                name np' = k \<and> index np' < length (split path) \<longrightarrow> index np' \<le> index np))"
  (is "?L \<longleftrightarrow> ?R")
proof
  assume ?L
  then obtain i where i: "i < length (split t)" "i < length (split path)" "braced (split t ! i)"
      "unbrace (split t ! i) = k" "split path ! i = v"
      "\<forall>j. i < j \<and> j < length (split t) \<and> j < length (split path)
                 \<longrightarrow> \<not> (braced (split t ! j) \<and> unbrace (split t ! j) = k)"
    unfolding ToMap_lenient_lookup_tokens by blast
  let ?np = "\<lparr> name = k, index = i \<rparr>"
  have "?np \<in> set (namedParts (New_lenient t))"
    using i by (simp add: namedParts_New_lenient)
  moreover have "\<forall>np' \<in> set (namedParts (New_lenient t)).
                name np' = k \<and> index np' < length (split path) \<longrightarrow> index np' \<le> index ?np"
    using i(6) by (auto simp: namedParts_New_lenient not_less[symmetric])
  ultimately show ?R
    using i by (intro bexI[of _ ?np]) simp_all
next
  assume ?R
  then obtain np where np: "np \<in> set (namedParts (New_lenient t))" "name np = k"
      "index np < length (split path)" "split path ! index np = v"
      "\<forall>np' \<in> set (namedParts (New_lenient t)).
                name np' = k \<and> index np' < length (split path) \<longrightarrow> index np' \<le> index np"
    by blast
  have "\<not> (braced (split t ! j) \<and> unbrace (split t ! j) = k)"
    if "index np < j" "j < length (split t)" "j < length (split path)" for j
  proof
    assume "braced (split t ! j) \<and> unbrace (split t ! j) = k"
    then have "\<lparr> name = k, index = j \<rparr> \<in> set (namedParts (New_lenient t))"
      using that by (simp add: namedParts_New_lenient)
    with np(5) that show False by force
  qed
  with np show ?L
    unfolding ToMap_lenient_lookup_tokens
    by (intro exI[of _ "index np"]) (auto simp: namedParts_New_lenient)
qed

section \<open>Evaluation at concrete templates and paths\<close>

lemmas string_defs = split_def TrimPrefix_def HasPrefix_def HasSuffix_def TrimSuffix_def braced_def unbrace_def

lemma New_items_id:
  "New ''/items/{id}'' = \<lparr> str = ''/items/{id}'', parts = [\<lparr> static = ''items'', variable = [] \<rparr>, \<lparr> static = [], variable = ''id'' \<rparr>] \<rparr>"
  by (simp add: New_def string_defs)

lemma split_items_123: "split ''/items/123'' = [''items'', ''123'']"
  by (simp add: string_defs)

lemma ToMap_items_123: "ToMap (New ''/items/{id}'') ''/items/123'' = Inr [''id'' \<mapsto> ''123'']"
  by (simp add: ToMap_def New_items_id split_items_123)

section \<open>What ToMap returns\<close>

text \<open>
  Claim C2. \<open>ToMap\<close> looks only at the indices below both the number of the template's
  segments and the number of the path's tokens, and its result binds a name \<open>k\<close> to a
  value \<open>v\<close> exactly when some variable segment at such an index has the name \<open>k\<close>, the
  path's token at that index is \<open>v\<close>, and no variable segment at a higher such index has
  the same name: every variable segment in range is bound, one entry per name, and among
  segments of one name the highest index wins.

  Strict version: for every \<open>Format\<close> on which \<open>ToMap\<close> returns a map; a part is a variable
  segment when its \<open>variable\<close> field is not empty. Lenient version: for every compiled
  template \<open>New_lenient t\<close>; the variable segments are its \<open>namedParts\<close>, whose indices all
  lie below the number of the template's tokens.
\<close>

theorem ToMap_binds_variables:
  "(ToMap f path = Inr m \<longrightarrow>
      (\<forall>k v. m k = Some v \<longleftrightarrow>
         k \<noteq> [] \<and> (\<exists>i. i < length (parts f) \<and> i < length (split path) \<and> variable (parts f ! i) = k
           \<and> split path ! i = v
           \<and> (\<forall>j. i < j \<and> j < length (parts f) \<and> j < length (split path) \<longrightarrow> variable (parts f ! j) \<noteq> k))))
   \<and> (\<forall>np \<in> set (namedParts (New_lenient t)). index np < length (split t))
   \<and> (\<forall>k v. ToMap_lenient (New_lenient t) path k = Some v \<longleftrightarrow>
        (\<exists>np \<in> set (namedParts (New_lenient t)). name np = k \<and> index np < length (split path)
          \<and> split path ! index np = v
          \<and> (\<forall>np' \<in> set (namedParts (New_lenient t)).
                name np' = k \<and> index np' < length (split path) \<longrightarrow> index np' \<le> index np)))"
  using ToMap_lookup[of f path m] ToMap_lenient_lookup[of t path]
  by (simp add: namedParts_New_lenient)

text \<open>The theorem at the template \<open>/items/{id}\<close> and the path \<open>/items/123\<close>.\<close>

theorem ToMap_binds_variables_witness:
  "ToMap (New ''/items/{id}'') ''/items/123'' = Inr [''id'' \<mapsto> ''123'']
   \<and> (\<exists>i. i < length (parts (New ''/items/{id}'')) \<and> i < length (split ''/items/123'')
          \<and> variable (parts (New ''/items/{id}'') ! i) = ''id'' \<and> split ''/items/123'' ! i = ''123''
          \<and> (\<forall>j. i < j \<and> j < length (parts (New ''/items/{id}'')) \<and> j < length (split ''/items/123'')
                \<longrightarrow> variable (parts (New ''/items/{id}'') ! j) \<noteq> ''id''))"
proof -
  let ?m = "[''id'' \<mapsto> ''123'']"
  have h: "ToMap (New ''/items/{id}'') ''/items/123'' = Inr ?m"
    by (rule ToMap_items_123)
  have v: "?m ''id'' = Some ''123''" by simp
  from ToMap_binds_variables[of "New ''/items/{id}''" "''/items/123''" ?m "''/items/{id}''"] h
  have "?m ''id'' = Some ''123'' \<longleftrightarrow>
      ''id'' \<noteq> [] \<and> (\<exists>i. i < length (parts (New ''/items/{id}'')) \<and> i < length (split ''/items/123'')
          \<and> variable (parts (New ''/items/{id}'') ! i) = ''id'' \<and> split ''/items/123'' ! i = ''123''
          \<and> (\<forall>j. i < j \<and> j < length (parts (New ''/items/{id}'')) \<and> j < length (split ''/items/123'')
                \<longrightarrow> variable (parts (New ''/items/{id}'') ! j) \<noteq> ''id''))"
    by blast
  with v h show ?thesis by blast
qed

section \<open>The two versions of ToMap agree where the strict one succeeds\<close>

text \<open>
  Claim C3. For every template in which no braced token has an empty name, and every
  path on which the strict \<open>ToMap\<close> returns a map, the lenient \<open>ToMap\<close> of the same
  template and path returns the same map.
\<close>

theorem ToMap_lenient_refines_strict:
  assumes "\<forall>tok \<in> set (split t). braced tok \<longrightarrow> unbrace tok \<noteq> []"
    and "ToMap (New t) path = Inr m"
  shows "ToMap_lenient (New_lenient t) path = m"
proof -
  have "map part_binding (zip (parts (New t)) (split path))
          = map token_binding (zip (split t) (split path))"
    unfolding parts_New_binding
    using assms(1) by (intro map_cong refl) (auto simp: token_binding_def dest: set_zip_leftD)
  then show ?thesis
    using ToMap_Inr_fold[OF assms(2)] by (simp add: ToMap_lenient_fold)
qed

text \<open>The theorem at the template \<open>/items/{id}\<close> and the path \<open>/items/123\<close>.\<close>

theorem ToMap_lenient_refines_strict_witness:
  "ToMap (New ''/items/{id}'') ''/items/123'' = Inr [''id'' \<mapsto> ''123'']
   \<and> ToMap_lenient (New_lenient ''/items/{id}'') ''/items/123'' = [''id'' \<mapsto> ''123'']"
proof -
  have h1: "\<forall>tok \<in> set (split ''/items/{id}''). braced tok \<longrightarrow> unbrace tok \<noteq> []"
    by (simp add: string_defs)
  have h2: "ToMap (New ''/items/{id}'') ''/items/123'' = Inr [''id'' \<mapsto> ''123'']"
    by (rule ToMap_items_123)
  from ToMap_lenient_refines_strict[OF h1 h2] h2 show ?thesis by (rule conjI[rotated])
qed

section \<open>When the strict ToMap fails\<close>

text \<open>
  Claim C4. The strict \<open>ToMap\<close> returns an error exactly when, at some index below both
  the number of parts and the number of the path's tokens, the part is static (its
  \<open>variable\<close> field is empty) and its text differs from the path's token there. The error
  is the one of the first such index and carries the template string, the path string,
  the expected text and the token found. The template \<open>/items/{id}/subitems/{subid}\<close>
  fails on the path \<open>/items/123/invalid/456\<close>, expecting \<open>subitems\<close> and finding
  \<open>invalid\<close>.
\<close>

theorem ToMap_mismatch:
  "((\<exists>e. ToMap f path = Inl e) \<longleftrightarrow>
      (\<exists>i. i < length (parts f) \<and> i < length (split path)
           \<and> variable (parts f ! i) = [] \<and> static (parts f ! i) \<noteq> split path ! i))
   \<and> (ToMap f path = Inl e \<longrightarrow>
        (\<exists>i. i < length (parts f) \<and> i < length (split path)
           \<and> variable (parts f ! i) = [] \<and> static (parts f ! i) \<noteq> split path ! i
           \<and> (\<forall>j<i. variable (parts f ! j) = [] \<longrightarrow> static (parts f ! j) = split path ! j)
           \<and> e = MismatchError (str f) path (static (parts f ! i)) (split path ! i)))
   \<and> ToMap (New ''/items/{id}/subitems/{subid}'') ''/items/123/invalid/456''
        = Inl (MismatchError ''/items/{id}/subitems/{subid}'' ''/items/123/invalid/456''
                 ''subitems'' ''invalid'')"
proof (intro conjI impI)
  show "(\<exists>e. ToMap f path = Inl e) \<longleftrightarrow>
      (\<exists>i. i < length (parts f) \<and> i < length (split path)
           \<and> variable (parts f ! i) = [] \<and> static (parts f ! i) \<noteq> split path ! i)"
    (is "?L \<longleftrightarrow> ?R")
  proof
    assume ?L
    then show ?R
      unfolding ToMap_def ToMap_loop_Inl_iff by auto
  next
    assume ?R
    then have ex: "\<exists>i. i < length (parts f) \<and> i < length (split path)
           \<and> variable (parts f ! i) = [] \<and> static (parts f ! i) \<noteq> split path ! i" .
    define i where "i = (LEAST i. i < length (parts f) \<and> i < length (split path)
           \<and> variable (parts f ! i) = [] \<and> static (parts f ! i) \<noteq> split path ! i)"
    have i: "i < length (parts f) \<and> i < length (split path)
           \<and> variable (parts f ! i) = [] \<and> static (parts f ! i) \<noteq> split path ! i"
      unfolding i_def using ex by (rule LeastI_ex)
    have least: "\<not> (j < length (parts f) \<and> j < length (split path)
           \<and> variable (parts f ! j) = [] \<and> static (parts f ! j) \<noteq> split path ! j)" if "j < i" for j
      using that unfolding i_def by (rule not_less_Least)
    have "ToMap f path = Inl (MismatchError (str f) path (static (parts f ! i)) (split path ! i))"
      unfolding ToMap_def ToMap_loop_Inl_iff
      using i least by (intro exI[of _ i]) auto
    then show ?L by blast
  qed
next
  assume "ToMap f path = Inl e"
  then show "\<exists>i. i < length (parts f) \<and> i < length (split path)
           \<and> variable (parts f ! i) = [] \<and> static (parts f ! i) \<noteq> split path ! i
           \<and> (\<forall>j<i. variable (parts f ! j) = [] \<longrightarrow> static (parts f ! j) = split path ! j)
           \<and> e = MismatchError (str f) path (static (parts f ! i)) (split path ! i)"
    unfolding ToMap_def ToMap_loop_Inl_iff by auto
next
  show "ToMap (New ''/items/{id}/subitems/{subid}'') ''/items/123/invalid/456''
        = Inl (MismatchError ''/items/{id}/subitems/{subid}'' ''/items/123/invalid/456''
                 ''subitems'' ''invalid'')"
    by (simp add: ToMap_def New_def string_defs)
qed

text \<open>The theorem at the template \<open>/items/{id}\<close> and the path \<open>/item/123\<close>.\<close>

theorem ToMap_mismatch_witness:
  "ToMap (New ''/items/{id}'') ''/item/123'' = Inl (MismatchError ''/items/{id}'' ''/item/123'' ''items'' ''item'')
   \<and> (\<exists>i. i < length (parts (New ''/items/{id}'')) \<and> i < length (split ''/item/123'')
         \<and> variable (parts (New ''/items/{id}'') ! i) = []
         \<and> static (parts (New ''/items/{id}'') ! i) \<noteq> split ''/item/123'' ! i)"
proof -
  have h: "ToMap (New ''/items/{id}'') ''/item/123'' = Inl (MismatchError ''/items/{id}'' ''/item/123'' ''items'' ''item'')"
    by (simp add: ToMap_def New_items_id string_defs)
  from ToMap_mismatch[of "New ''/items/{id}''" "''/item/123''"] h
  have "\<exists>i. i < length (parts (New ''/items/{id}'')) \<and> i < length (split ''/item/123'')
         \<and> variable (parts (New ''/items/{id}'') ! i) = []
         \<and> static (parts (New ''/items/{id}'') ! i) \<noteq> split ''/item/123'' ! i"
    by blast
  with h show ?thesis by (rule conjI)
qed

section \<open>The empty path\<close>

text \<open>
  Claim C10. The empty path splits into one empty token, not into none. So for every
  template whose first segment is a variable, \<open>ToMap\<close> on the empty path succeeds in both
  versions and returns the map that binds the name of that variable to the empty string
  and nothing else. In the strict version the first segment is a variable when its
  \<open>variable\<close> field is not empty; in the lenient version when a named part has index 0.
\<close>

theorem ToMap_empty_path:
  "split [] = [[]]
   \<and> (parts f \<noteq> [] \<and> variable (parts f ! 0) \<noteq> [] \<longrightarrow>
        ToMap f [] = Inr [variable (parts f ! 0) \<mapsto> []])
   \<and> (\<lparr> name = n, index = 0 \<rparr> \<in> set (namedParts (New_lenient t)) \<longrightarrow>
        ToMap_lenient (New_lenient t) [] = [n \<mapsto> []])"
proof (intro conjI impI)
  show "split [] = [[]]" by simp
next
  assume "parts f \<noteq> [] \<and> variable (parts f ! 0) \<noteq> []"
  then show "ToMap f [] = Inr [variable (parts f ! 0) \<mapsto> []]"
    by (simp add: ToMap_def)
next
  assume "\<lparr> name = n, index = 0 \<rparr> \<in> set (namedParts (New_lenient t))"
  then have b: "braced (split t ! 0)" "n = unbrace (split t ! 0)"
    by (simp_all add: namedParts_New_lenient)
  obtain tok rest where t: "split t = tok # rest"
    using split_not_Nil[of t] by (cases "split t") auto
  show "ToMap_lenient (New_lenient t) [] = [n \<mapsto> []]"
    using b by (simp add: ToMap_lenient_fold t token_binding_simps)
qed

text \<open>The theorem at the template \<open>/{id}/x\<close>.\<close>

theorem ToMap_empty_path_witness:
  "parts (New ''/{id}/x'') \<noteq> [] \<and> variable (parts (New ''/{id}/x'') ! 0) \<noteq> []
   \<and> ToMap (New ''/{id}/x'') [] = Inr [''id'' \<mapsto> []]
   \<and> \<lparr> name = ''id'', index = 0 \<rparr> \<in> set (namedParts (New_lenient ''/{id}/x''))
   \<and> ToMap_lenient (New_lenient ''/{id}/x'') [] = [''id'' \<mapsto> []]"
proof -
  have p: "parts (New ''/{id}/x'') = [\<lparr> static = [], variable = ''id'' \<rparr>, \<lparr> static = ''x'', variable = [] \<rparr>]"
    by (simp add: New_def string_defs)
  have h1: "parts (New ''/{id}/x'') \<noteq> [] \<and> variable (parts (New ''/{id}/x'') ! 0) \<noteq> []"
    by (simp add: p)
  have h2: "\<lparr> name = ''id'', index = 0 \<rparr> \<in> set (namedParts (New_lenient ''/{id}/x''))"
    by (simp add: New_lenient_def string_defs)
  note inst = ToMap_empty_path[of "New ''/{id}/x''" "''id''" "''/{id}/x''"]
  from inst h1 have c1: "ToMap (New ''/{id}/x'') [] = Inr [variable (parts (New ''/{id}/x'') ! 0) \<mapsto> []]"
    by blast
  from inst h2 have c2: "ToMap_lenient (New_lenient ''/{id}/x'') [] = [''id'' \<mapsto> []]"
    by blast
  from c1 have c1': "ToMap (New ''/{id}/x'') [] = Inr [''id'' \<mapsto> []]"
    by (simp add: p)
  from h1 c1' h2 c2 show ?thesis by blast
qed

section \<open>The loop of ToStruct\<close>

lemma ToStruct_fields_length: "length (fst (ToStruct_fields L m fs)) = length fs"
  by (induction fs) (auto split: prod.splits option.splits sum.splits)

lemma ToStruct_fields_append:
  "ToStruct_fields L m (xs @ ys) =
     (case ToStruct_fields L m xs of
        (xs', Some e) \<Rightarrow> (xs' @ ys, Some e)
      | (xs', None) \<Rightarrow> (case ToStruct_fields L m ys of (ys', r) \<Rightarrow> (xs' @ ys', r)))"
  by (induction xs) (auto split: prod.splits option.splits sum.splits)

lemma ToStruct_fields_unmapped:
  "i < length fs \<Longrightarrow> m (Tag (fs ! i)) = None \<Longrightarrow> fst (ToStruct_fields L m fs) ! i = fs ! i"
proof (induction fs arbitrary: i)
  case Nil
  then show ?case by simp
next
  case (Cons ef rest)
  show ?case
  proof (cases i)
    case 0
    with Cons.prems show ?thesis
      by (auto split: prod.splits option.splits sum.splits)
  next
    case (Suc j)
    with Cons.prems have "fst (ToStruct_fields L m rest) ! j = rest ! j"
      by (intro Cons.IH) simp_all
    with Suc show ?thesis
      by (auto split: prod.splits option.splits sum.splits)
  qed
qed

lemma setField_unsupported: "Kind ef \<notin> supported \<Longrightarrow> setField L ef v = Inr ef"
  by (simp add: setField_def supported_def)

lemma ToStruct_fields_skip:
  "CanSet ef \<Longrightarrow> Kind ef \<notin> supported \<Longrightarrow>
   ToStruct_fields L m (ef # rest) = (case ToStruct_fields L m rest of (rest', r) \<Rightarrow> (ef # rest', r))"
  by (simp add: setField_unsupported split: option.splits)

lemma ToStruct_fields_fail:
  "CanSet ef \<Longrightarrow> m (Tag ef) = Some v \<Longrightarrow> setField L ef v = Inl e \<Longrightarrow>
   ToStruct_fields L m (ef # rest) = (ef # rest, Some e)"
  by simp

lemma setField_Inl_iff:
  "setField L ef v = Inl e \<longleftrightarrow>
     (Kind ef = BoolK \<and> ParseBool L v = Inl e)
   \<or> (Kind ef \<in> {Float32K, Float64K} \<and> ParseFloat L v (Bits (Kind ef)) = Inl e)
   \<or> (Kind ef \<in> {IntK, Int8K, Int16K, Int32K, Int64K} \<and> ParseInt L v 0 (Bits (Kind ef)) = Inl e)
   \<or> (Kind ef \<in> {UintK, Uint8K, Uint16K, Uint32K, Uint64K, UintptrK} \<and> ParseUint L v 0 (Bits (Kind ef)) = Inl e)"
  unfolding setField_def
  by (cases "Kind ef") (simp_all split: sum.splits)

lemma ToStruct_fields_stop:
  assumes "ToStruct_fields L m pre = (pre', None)" "CanSet ef" "m (Tag ef) = Some v"
    "setField L ef v = Inl e"
  shows "ToStruct_fields L m (pre @ ef # post) = (pre' @ ef # post, Some e)"
  using assms by (simp add: ToStruct_fields_append)

lemma ToStruct_body_skip:
  assumes "CanSet ef" "Kind ef \<notin> supported"
  shows "\<exists>pre' post' r.
           ToStruct_body L m (PtrTo (StructObj (pre @ ef # post))) = (PtrTo (StructObj (pre' @ ef # post')), r)
         \<and> ToStruct_body L m (PtrTo (StructObj (pre @ post))) = (PtrTo (StructObj (pre' @ post')), r)
         \<and> length pre' = length pre \<and> length post' = length post"
proof -
  obtain pre' rp where p: "ToStruct_fields L m pre = (pre', rp)" by (cases "ToStruct_fields L m pre")
  obtain post' rq where q: "ToStruct_fields L m post = (post', rq)" by (cases "ToStruct_fields L m post")
  have lp: "length pre' = length pre" using ToStruct_fields_length[of L m pre] p by simp
  have lq: "length post' = length post" using ToStruct_fields_length[of L m post] q by simp
  show ?thesis
  proof (cases rp)
    case None
    have "ToStruct_fields L m (ef # post) = (ef # post', rq)"
      using assms q by (simp add: ToStruct_fields_skip del: ToStruct_fields.simps)
    then have 1: "ToStruct_fields L m (pre @ ef # post) = (pre' @ ef # post', rq)"
      using p None by (simp add: ToStruct_fields_append del: ToStruct_fields.simps)
    have 2: "ToStruct_fields L m (pre @ post) = (pre' @ post', rq)"
      using p q None by (simp add: ToStruct_fields_append del: ToStruct_fields.simps)
    show ?thesis
      using 1 2 lp lq by (intro exI[of _ pre'] exI[of _ post'] exI[of _ rq]) simp
  next
    case (Some e)
    have 1: "ToStruct_fields L m (pre @ ef # post) = (pre' @ ef # post, Some e)"
      using p Some by (simp add: ToStruct_fields_append del: ToStruct_fields.simps)
    have 2: "ToStruct_fields L m (pre @ post) = (pre' @ post, Some e)"
      using p Some by (simp add: ToStruct_fields_append del: ToStruct_fields.simps)
    show ?thesis
      using 1 2 lp by (intro exI[of _ pre'] exI[of _ post] exI[of _ "Some e"]) simp
  qed
qed

section \<open>The template and the struct of the tests, evaluated\<close>

lemma split_abcd: "split ''/a/{a}/b/{b}/c/{c}/d/{d}'' = [''a'', ''{a}'', ''b'', ''{b}'', ''c'', ''{c}'', ''d'', ''{d}'']"
  by (simp add: string_defs)

lemma New_abcd:
  "New ''/a/{a}/b/{b}/c/{c}/d/{d}'' =
     \<lparr> str = ''/a/{a}/b/{b}/c/{c}/d/{d}'',
       parts = [\<lparr> static = ''a'', variable = [] \<rparr>, \<lparr> static = [], variable = ''a'' \<rparr>,
                \<lparr> static = ''b'', variable = [] \<rparr>, \<lparr> static = [], variable = ''b'' \<rparr>,
                \<lparr> static = ''c'', variable = [] \<rparr>, \<lparr> static = [], variable = ''c'' \<rparr>,
                \<lparr> static = ''d'', variable = [] \<rparr>, \<lparr> static = [], variable = ''d'' \<rparr>] \<rparr>"
  by (simp add: New_def split_abcd) (simp add: string_defs)

lemma New_lenient_abcd:
  "New_lenient ''/a/{a}/b/{b}/c/{c}/d/{d}'' =
     \<lparr> namedParts = [\<lparr> name = ''a'', index = 1 \<rparr>, \<lparr> name = ''b'', index = 3 \<rparr>,
                     \<lparr> name = ''c'', index = 5 \<rparr>, \<lparr> name = ''d'', index = 7 \<rparr>] \<rparr>"
  by (simp add: New_lenient_def split_abcd enumerate_eq_zip upt_rec) (simp add: string_defs)

lemma split_abc_123: "split ''/a/abc/b/123'' = [''a'', ''abc'', ''b'', ''123'']"
  by (simp add: string_defs)

lemma split_abc_xyz: "split ''/a/abc/b/xyz'' = [''a'', ''abc'', ''b'', ''xyz'']"
  by (simp add: string_defs)

lemma ToMap_abc_123:
  "ToMap (New ''/a/{a}/b/{b}/c/{c}/d/{d}'') ''/a/abc/b/123'' = Inr [''a'' \<mapsto> ''abc'', ''b'' \<mapsto> ''123'']"
  by (simp add: ToMap_def New_abcd split_abc_123)

lemma ToMap_lenient_abc_123:
  "ToMap_lenient (New_lenient ''/a/{a}/b/{b}/c/{c}/d/{d}'') ''/a/abc/b/123'' = [''a'' \<mapsto> ''abc'', ''b'' \<mapsto> ''123'']"
  by (simp add: ToMap_lenient_def New_lenient_abcd split_abc_123)

lemma ToMap_abc_xyz:
  "ToMap (New ''/a/{a}/b/{b}/c/{c}/d/{d}'') ''/a/abc/b/xyz'' = Inr [''a'' \<mapsto> ''abc'', ''b'' \<mapsto> ''xyz'']"
  by (simp add: ToMap_def New_abcd split_abc_xyz)

lemma ToMap_lenient_abc_xyz:
  "ToMap_lenient (New_lenient ''/a/{a}/b/{b}/c/{c}/d/{d}'') ''/a/abc/b/xyz'' = [''a'' \<mapsto> ''abc'', ''b'' \<mapsto> ''xyz'']"
  by (simp add: ToMap_lenient_def New_lenient_abcd split_abc_xyz)

lemma MyPath_bind_123:
  "ParseInt L ''123'' 0 64 = Inr 123 \<Longrightarrow>
   ToStruct_fields L [''a'' \<mapsto> ''abc'', ''b'' \<mapsto> ''123''] (MyPath a b c d)
     = (MyPath (StringV ''abc'') (IntV 123) c d, None)"
  by (simp add: MyPath_def CanSet_def setField_def Bits_def)

lemma MyPath_bind_xyz:
  "ParseInt L ''xyz'' 0 64 = Inl e \<Longrightarrow>
   ToStruct_fields L [''a'' \<mapsto> ''abc'', ''b'' \<mapsto> ''xyz''] (MyPath a b c d)
     = (MyPath (StringV ''abc'') b c d, Some e)"
  by (simp add: MyPath_def CanSet_def setField_def Bits_def)

lemma dec_ParseInt_123: "ParseInt dec_stdlib ''123'' 0 64 = Inr 123"
  by (simp add: dec_stdlib_def dec_ParseInt_def digit_def string_defs)

lemma dec_ParseInt_xyz: "ParseInt dec_stdlib ''xyz'' 0 64 = Inl (NumError ''ParseInt'' ''xyz'')"
  by (simp add: dec_stdlib_def dec_ParseInt_def digit_def string_defs)

section \<open>Fields without a key in the map\<close>

text \<open>
  Claim C7. A call of \<open>ToStruct\<close> on a pointer to a struct, whether it returns an error or
  not, leaves the struct a struct with the same number of fields, and every field whose
  tag is no key of the map that \<open>ToMap\<close> returned is after the call what it was before:
  no field is reset for a missing key. (In the strict version a failing \<open>ToMap\<close> leaves
  every field as it was.) This holds of every field, so of the tagged and settable ones.
  Binding the path \<open>/a/abc/b/123\<close> with the template \<open>/a/{a}/b/{b}/c/{c}/d/{d}\<close> sets
  \<open>A\<close> and \<open>B\<close> and leaves \<open>C\<close> and \<open>D\<close> at their values \<open>c\<close> and \<open>d\<close> from before the call,
  whenever the library reads \<open>123\<close> as the integer 123.
\<close>

theorem ToStruct_keeps_unmapped_fields:
  "(ToStruct L f s (PtrTo (StructObj fs)) = (x', r) \<longrightarrow>
      (\<exists>fs'. x' = PtrTo (StructObj fs') \<and> length fs' = length fs
         \<and> (\<forall>i<length fs. (\<forall>m. ToMap f s = Inr m \<longrightarrow> m (Tag (fs ! i)) = None) \<longrightarrow> fs' ! i = fs ! i)))
   \<and> (ToStruct_lenient L fl s (PtrTo (StructObj fs)) = (y', r') \<longrightarrow>
      (\<exists>fs'. y' = PtrTo (StructObj fs') \<and> length fs' = length fs
         \<and> (\<forall>i<length fs. ToMap_lenient fl s (Tag (fs ! i)) = None \<longrightarrow> fs' ! i = fs ! i)))
   \<and> (ParseInt L ''123'' 0 64 = Inr 123 \<longrightarrow>
        ToStruct L (New ''/a/{a}/b/{b}/c/{c}/d/{d}'') ''/a/abc/b/123'' (PtrTo (StructObj (MyPath a b c d)))
          = (PtrTo (StructObj (MyPath (StringV ''abc'') (IntV 123) c d)), None)
        \<and> ToStruct_lenient L (New_lenient ''/a/{a}/b/{b}/c/{c}/d/{d}'') ''/a/abc/b/123''
              (PtrTo (StructObj (MyPath a b c d)))
          = (PtrTo (StructObj (MyPath (StringV ''abc'') (IntV 123) c d)), None))"
proof (intro conjI impI)
  assume a: "ToStruct L f s (PtrTo (StructObj fs)) = (x', r)"
  show "\<exists>fs'. x' = PtrTo (StructObj fs') \<and> length fs' = length fs
         \<and> (\<forall>i<length fs. (\<forall>m. ToMap f s = Inr m \<longrightarrow> m (Tag (fs ! i)) = None) \<longrightarrow> fs' ! i = fs ! i)"
  proof (cases "ToMap f s")
    case (Inl err)
    with a have "x' = PtrTo (StructObj fs)" by (simp add: ToStruct_def)
    then show ?thesis by simp
  next
    case (Inr m)
    with a have "x' = PtrTo (StructObj (fst (ToStruct_fields L m fs)))"
      by (auto simp: ToStruct_def split: prod.splits)
    then show ?thesis
      using Inr by (simp add: ToStruct_fields_length ToStruct_fields_unmapped)
  qed
next
  assume "ToStruct_lenient L fl s (PtrTo (StructObj fs)) = (y', r')"
  then have "y' = PtrTo (StructObj (fst (ToStruct_fields L (ToMap_lenient fl s) fs)))"
    by (auto simp: ToStruct_lenient_def split: prod.splits)
  then show "\<exists>fs'. y' = PtrTo (StructObj fs') \<and> length fs' = length fs
         \<and> (\<forall>i<length fs. ToMap_lenient fl s (Tag (fs ! i)) = None \<longrightarrow> fs' ! i = fs ! i)"
    by (simp add: ToStruct_fields_length ToStruct_fields_unmapped)
next
  assume "ParseInt L ''123'' 0 64 = Inr 123"
  then show "ToStruct L (New ''/a/{a}/b/{b}/c/{c}/d/{d}'') ''/a/abc/b/123'' (PtrTo (StructObj (MyPath a b c d)))
          = (PtrTo (StructObj (MyPath (StringV ''abc'') (IntV 123) c d)), None)"
    by (simp add: ToStruct_def ToMap_abc_123 MyPath_bind_123)
next
  assume "ParseInt L ''123'' 0 64 = Inr 123"
  then show "ToStruct_lenient L (New_lenient ''/a/{a}/b/{b}/c/{c}/d/{d}'') ''/a/abc/b/123''
              (PtrTo (StructObj (MyPath a b c d)))
          = (PtrTo (StructObj (MyPath (StringV ''abc'') (IntV 123) c d)), None)"
    by (simp add: ToStruct_lenient_def ToMap_lenient_abc_123 MyPath_bind_123)
qed

text \<open>The theorem at a fresh \<open>MyPath\<close> and the stand-in library.\<close>

theorem ToStruct_keeps_unmapped_fields_witness:
  "ParseInt dec_stdlib ''123'' 0 64 = Inr 123
   \<and> ToStruct dec_stdlib (New ''/a/{a}/b/{b}/c/{c}/d/{d}'') ''/a/abc/b/123''
        (PtrTo (StructObj (MyPath (StringV []) (IntV 0) (FloatV ()) (BoolV False))))
      = (PtrTo (StructObj (MyPath (StringV ''abc'') (IntV 123) (FloatV ()) (BoolV False))), None)
   \<and> (\<exists>fs'. PtrTo (StructObj (MyPath (StringV ''abc'') (IntV 123) (FloatV ()) (BoolV False))) = PtrTo (StructObj fs')
          \<and> length fs' = length (MyPath (StringV []) (IntV 0) (FloatV ()) (BoolV False))
          \<and> (\<forall>i<length (MyPath (StringV []) (IntV 0) (FloatV ()) (BoolV False)).
                (\<forall>m. ToMap (New ''/a/{a}/b/{b}/c/{c}/d/{d}'') ''/a/abc/b/123'' = Inr m
                      \<longrightarrow> m (Tag (MyPath (StringV []) (IntV 0) (FloatV ()) (BoolV False) ! i)) = None)
                \<longrightarrow> fs' ! i = MyPath (StringV []) (IntV 0) (FloatV ()) (BoolV False) ! i))
   \<and> ToStruct_lenient dec_stdlib (New_lenient ''/a/{a}/b/{b}/c/{c}/d/{d}'') ''/a/abc/b/123''
        (PtrTo (StructObj (MyPath (StringV []) (IntV 0) (FloatV ()) (BoolV False))))
      = (PtrTo (StructObj (MyPath (StringV ''abc'') (IntV 123) (FloatV ()) (BoolV False))), None)"
proof -
  let ?F = "New ''/a/{a}/b/{b}/c/{c}/d/{d}''" and ?FL = "New_lenient ''/a/{a}/b/{b}/c/{c}/d/{d}''"
  let ?Z = "MyPath (StringV []) (IntV 0) (FloatV ()) (BoolV False) :: unit field list"
  let ?Z' = "MyPath (StringV ''abc'') (IntV 123) (FloatV ()) (BoolV False) :: unit field list"
  note inst = ToStruct_keeps_unmapped_fields[where L = dec_stdlib and f = ?F and fl = ?FL
      and s = "''/a/abc/b/123''" and fs = ?Z and x' = "PtrTo (StructObj ?Z')" and r = None
      and y' = "PtrTo (StructObj ?Z')" and r' = None
      and a = "StringV []" and b = "IntV 0" and c = "FloatV ()" and d = "BoolV False"]
  have h: "ParseInt dec_stdlib ''123'' 0 64 = Inr 123" by (rule dec_ParseInt_123)
  from inst h have c1: "ToStruct dec_stdlib ?F ''/a/abc/b/123'' (PtrTo (StructObj ?Z)) = (PtrTo (StructObj ?Z'), None)"
    and c2: "ToStruct_lenient dec_stdlib ?FL ''/a/abc/b/123'' (PtrTo (StructObj ?Z)) = (PtrTo (StructObj ?Z'), None)"
    by blast+
  from inst c1 have c3: "\<exists>fs'. PtrTo (StructObj ?Z') = PtrTo (StructObj fs')
          \<and> length fs' = length ?Z
          \<and> (\<forall>i<length ?Z. (\<forall>m. ToMap ?F ''/a/abc/b/123'' = Inr m \<longrightarrow> m (Tag (?Z ! i)) = None)
                \<longrightarrow> fs' ! i = ?Z ! i)"
    by blast
  from h c1 c3 c2 show ?thesis by blast
qed

section \<open>A value that cannot be parsed\<close>

text \<open>
  Claim C8. Let the loop of \<open>ToStruct\<close> pass the fields \<open>pre\<close> without an error, leaving
  them as \<open>pre'\<close>, and let the next field \<open>ef\<close> be settable, with a value \<open>v\<close> for its tag
  in the map, whose conversion to the kind of \<open>ef\<close> fails with the error \<open>e\<close>. Then
  \<open>ToStruct\<close> returns \<open>e\<close>, the fields before \<open>ef\<close> keep their new values \<open>pre'\<close>, and \<open>ef\<close>
  and all fields \<open>post\<close> after it are what they were: the later fields are not visited
  and nothing is rolled back. The conversion fails exactly when the parser that the
  switch calls for the kind of \<open>ef\<close> fails. With the template
  \<open>/a/{a}/b/{b}/c/{c}/d/{d}\<close> and the path \<open>/a/abc/b/xyz\<close>, whenever the library rejects
  \<open>xyz\<close> as an integer, \<open>ToStruct\<close> returns that error with \<open>A\<close> set to \<open>abc\<close> and \<open>B\<close>
  unchanged.
\<close>

theorem ToStruct_stops_at_first_failure:
  "(ToStruct_fields L m pre = (pre', None) \<and> CanSet ef \<and> m (Tag ef) = Some v \<and> setField L ef v = Inl e \<longrightarrow>
      (ToMap f s = Inr m \<longrightarrow>
         ToStruct L f s (PtrTo (StructObj (pre @ ef # post))) = (PtrTo (StructObj (pre' @ ef # post)), Some e))
      \<and> (ToMap_lenient fl s = m \<longrightarrow>
         ToStruct_lenient L fl s (PtrTo (StructObj (pre @ ef # post))) = (PtrTo (StructObj (pre' @ ef # post)), Some e)))
   \<and> (setField L ef v = Inl e \<longleftrightarrow>
        (Kind ef = BoolK \<and> ParseBool L v = Inl e)
      \<or> (Kind ef \<in> {Float32K, Float64K} \<and> ParseFloat L v (Bits (Kind ef)) = Inl e)
      \<or> (Kind ef \<in> {IntK, Int8K, Int16K, Int32K, Int64K} \<and> ParseInt L v 0 (Bits (Kind ef)) = Inl e)
      \<or> (Kind ef \<in> {UintK, Uint8K, Uint16K, Uint32K, Uint64K, UintptrK} \<and> ParseUint L v 0 (Bits (Kind ef)) = Inl e))
   \<and> (ParseInt L ''xyz'' 0 64 = Inl e \<longrightarrow>
        ToStruct L (New ''/a/{a}/b/{b}/c/{c}/d/{d}'') ''/a/abc/b/xyz'' (PtrTo (StructObj (MyPath a b c d)))
          = (PtrTo (StructObj (MyPath (StringV ''abc'') b c d)), Some e)
        \<and> ToStruct_lenient L (New_lenient ''/a/{a}/b/{b}/c/{c}/d/{d}'') ''/a/abc/b/xyz''
              (PtrTo (StructObj (MyPath a b c d)))
          = (PtrTo (StructObj (MyPath (StringV ''abc'') b c d)), Some e))"
proof (intro conjI impI)
  assume a: "ToStruct_fields L m pre = (pre', None) \<and> CanSet ef \<and> m (Tag ef) = Some v \<and> setField L ef v = Inl e"
  then have "ToStruct_fields L m pre = (pre', None)" "CanSet ef" "m (Tag ef) = Some v"
      "setField L ef v = Inl e"
    by simp_all
  then have stop: "ToStruct_fields L m (pre @ ef # post) = (pre' @ ef # post, Some e)"
    by (rule ToStruct_fields_stop)
  {
    assume "ToMap f s = Inr m"
    then show "ToStruct L f s (PtrTo (StructObj (pre @ ef # post))) = (PtrTo (StructObj (pre' @ ef # post)), Some e)"
      using stop by (simp add: ToStruct_def)
  next
    assume "ToMap_lenient fl s = m"
    then show "ToStruct_lenient L fl s (PtrTo (StructObj (pre @ ef # post))) = (PtrTo (StructObj (pre' @ ef # post)), Some e)"
      using stop by (simp add: ToStruct_lenient_def)
  }
next
  show "setField L ef v = Inl e \<longleftrightarrow>
        (Kind ef = BoolK \<and> ParseBool L v = Inl e)
      \<or> (Kind ef \<in> {Float32K, Float64K} \<and> ParseFloat L v (Bits (Kind ef)) = Inl e)
      \<or> (Kind ef \<in> {IntK, Int8K, Int16K, Int32K, Int64K} \<and> ParseInt L v 0 (Bits (Kind ef)) = Inl e)
      \<or> (Kind ef \<in> {UintK, Uint8K, Uint16K, Uint32K, Uint64K, UintptrK} \<and> ParseUint L v 0 (Bits (Kind ef)) = Inl e)"
    by (rule setField_Inl_iff)
next
  assume "ParseInt L ''xyz'' 0 64 = Inl e"
  then show "ToStruct L (New ''/a/{a}/b/{b}/c/{c}/d/{d}'') ''/a/abc/b/xyz'' (PtrTo (StructObj (MyPath a b c d)))
          = (PtrTo (StructObj (MyPath (StringV ''abc'') b c d)), Some e)"
    by (simp add: ToStruct_def ToMap_abc_xyz MyPath_bind_xyz)
next
  assume "ParseInt L ''xyz'' 0 64 = Inl e"
  then show "ToStruct_lenient L (New_lenient ''/a/{a}/b/{b}/c/{c}/d/{d}'') ''/a/abc/b/xyz''
              (PtrTo (StructObj (MyPath a b c d)))
          = (PtrTo (StructObj (MyPath (StringV ''abc'') b c d)), Some e)"
    by (simp add: ToStruct_lenient_def ToMap_lenient_abc_xyz MyPath_bind_xyz)
qed

text \<open>
  The theorem at the stand-in library: \<open>A\<close> is set, \<open>B\<close> fails on \<open>xyz\<close>, and the field
  after \<open>B\<close> keeps its value although the map has a value for its tag.
\<close>

theorem ToStruct_stops_at_first_failure_witness:
  "ToStruct_fields dec_stdlib [''a'' \<mapsto> ''abc'', ''b'' \<mapsto> ''xyz'']
       [\<lparr> Name = ''A'', Tag = ''a'', Exported = True, Kind = StringK, Val = StringV [] \<rparr>]
     = ([\<lparr> Name = ''A'', Tag = ''a'', Exported = True, Kind = StringK, Val = StringV ''abc'' \<rparr>], None)
   \<and> setField dec_stdlib \<lparr> Name = ''B'', Tag = ''b'', Exported = True, Kind = IntK, Val = IntV 0 \<rparr> ''xyz''
       = Inl (NumError ''ParseInt'' ''xyz'')
   \<and> ToMap (New ''/a/{a}/b/{b}/c/{c}/d/{d}'') ''/a/abc/b/xyz'' = Inr [''a'' \<mapsto> ''abc'', ''b'' \<mapsto> ''xyz'']
   \<and> ToStruct dec_stdlib (New ''/a/{a}/b/{b}/c/{c}/d/{d}'') ''/a/abc/b/xyz''
        (PtrTo (StructObj
          ([\<lparr> Name = ''A'', Tag = ''a'', Exported = True, Kind = StringK, Val = StringV [] \<rparr>]
           @ \<lparr> Name = ''B'', Tag = ''b'', Exported = True, Kind = IntK, Val = IntV 0 \<rparr>
           # [\<lparr> Name = ''D'', Tag = ''a'', Exported = True, Kind = StringK, Val = StringV [] \<rparr>])))
      = (PtrTo (StructObj
          ([\<lparr> Name = ''A'', Tag = ''a'', Exported = True, Kind = StringK, Val = StringV ''abc'' \<rparr>]
           @ \<lparr> Name = ''B'', Tag = ''b'', Exported = True, Kind = IntK, Val = IntV 0 \<rparr>
           # [\<lparr> Name = ''D'', Tag = ''a'', Exported = True, Kind = StringK, Val = StringV [] \<rparr>])),
         Some (NumError ''ParseInt'' ''xyz''))"
proof -
  let ?m = "[''a'' \<mapsto> ''abc'', ''b'' \<mapsto> ''xyz'']"
  let ?A = "\<lparr> Name = ''A'', Tag = ''a'', Exported = True, Kind = StringK, Val = StringV [] \<rparr> :: unit field"
  let ?A' = "\<lparr> Name = ''A'', Tag = ''a'', Exported = True, Kind = StringK, Val = StringV ''abc'' \<rparr> :: unit field"
  let ?B = "\<lparr> Name = ''B'', Tag = ''b'', Exported = True, Kind = IntK, Val = IntV 0 \<rparr> :: unit field"
  let ?D = "\<lparr> Name = ''D'', Tag = ''a'', Exported = True, Kind = StringK, Val = StringV [] \<rparr> :: unit field"
  let ?e = "NumError ''ParseInt'' ''xyz''"
  have h1: "ToStruct_fields dec_stdlib ?m [?A] = ([?A'], None)"
    by (simp add: CanSet_def setField_def)
  have h2: "CanSet ?B" by (simp add: CanSet_def)
  have h3: "?m (Tag ?B) = Some ''xyz''" by simp
  have h4: "setField dec_stdlib ?B ''xyz'' = Inl ?e"
    by (simp add: setField_def Bits_def dec_ParseInt_xyz)
  have h5: "ToMap (New ''/a/{a}/b/{b}/c/{c}/d/{d}'') ''/a/abc/b/xyz'' = Inr ?m"
    by (rule ToMap_abc_xyz)
  from ToStruct_stops_at_first_failure[where L = dec_stdlib and m = ?m and pre = "[?A]" and pre' = "[?A']"
      and ef = ?B and v = "''xyz''" and e = ?e and f = "New ''/a/{a}/b/{b}/c/{c}/d/{d}''"
      and s = "''/a/abc/b/xyz''" and post = "[?D]"] h1 h2 h3 h4 h5
  have "ToStruct dec_stdlib (New ''/a/{a}/b/{b}/c/{c}/d/{d}'') ''/a/abc/b/xyz''
          (PtrTo (StructObj ([?A] @ ?B # [?D])))
        = (PtrTo (StructObj ([?A'] @ ?B # [?D])), Some ?e)"
    by blast
  with h1 h4 h5 show ?thesis by blast
qed

section \<open>Fields of a kind without a case in the switch\<close>

text \<open>
  Claim C9. For a settable field \<open>ef\<close> whose kind is none of bool, signed integer,
  unsigned integer, floating-point number and string, the switch of \<open>ToStruct\<close> returns the
  field as it is, whatever the string found for its tag. A call of \<open>ToStruct\<close> on a struct
  that holds \<open>ef\<close> leaves \<open>ef\<close> as it is, and treats the other fields and returns the
  error exactly as it does on the struct without \<open>ef\<close>. On a struct of \<open>ef\<close> alone the
  lenient \<open>ToStruct\<close> returns no error, and so does the strict one when \<open>ToMap\<close> succeeds.
\<close>

theorem ToStruct_skips_unsupported_kinds:
  "CanSet ef \<and> Kind ef \<notin> supported \<longrightarrow>
     setField L ef v = Inr ef
   \<and> (\<exists>pre' post' r.
         ToStruct L f s (PtrTo (StructObj (pre @ ef # post))) = (PtrTo (StructObj (pre' @ ef # post')), r)
       \<and> ToStruct L f s (PtrTo (StructObj (pre @ post))) = (PtrTo (StructObj (pre' @ post')), r)
       \<and> length pre' = length pre \<and> length post' = length post)
   \<and> (\<exists>pre' post' r.
         ToStruct_lenient L fl s (PtrTo (StructObj (pre @ ef # post))) = (PtrTo (StructObj (pre' @ ef # post')), r)
       \<and> ToStruct_lenient L fl s (PtrTo (StructObj (pre @ post))) = (PtrTo (StructObj (pre' @ post')), r)
       \<and> length pre' = length pre \<and> length post' = length post)
   \<and> (ToMap f s = Inr m \<longrightarrow> ToStruct L f s (PtrTo (StructObj [ef])) = (PtrTo (StructObj [ef]), None))
   \<and> ToStruct_lenient L fl s (PtrTo (StructObj [ef])) = (PtrTo (StructObj [ef]), None)"
proof (intro conjI impI)
  assume a: "CanSet ef \<and> Kind ef \<notin> supported"
  then have c: "CanSet ef" and k: "Kind ef \<notin> supported" by simp_all
  show "setField L ef v = Inr ef" using k by (rule setField_unsupported)
  show "\<exists>pre' post' r.
         ToStruct L f s (PtrTo (StructObj (pre @ ef # post))) = (PtrTo (StructObj (pre' @ ef # post')), r)
       \<and> ToStruct L f s (PtrTo (StructObj (pre @ post))) = (PtrTo (StructObj (pre' @ post')), r)
       \<and> length pre' = length pre \<and> length post' = length post"
  proof (cases "ToMap f s")
    case (Inl err)
    then show ?thesis
      by (intro exI[of _ pre] exI[of _ post] exI[of _ "Some err"]) (simp add: ToStruct_def)
  next
    case (Inr m')
    have b: "ToStruct L f s x = ToStruct_body L m' x" for x :: "'a iface"
      using Inr by (simp add: ToStruct_def)
    show ?thesis
      unfolding b by (rule ToStruct_body_skip[OF c k])
  qed
  show "\<exists>pre' post' r.
         ToStruct_lenient L fl s (PtrTo (StructObj (pre @ ef # post))) = (PtrTo (StructObj (pre' @ ef # post')), r)
       \<and> ToStruct_lenient L fl s (PtrTo (StructObj (pre @ post))) = (PtrTo (StructObj (pre' @ post')), r)
       \<and> length pre' = length pre \<and> length post' = length post"
    unfolding ToStruct_lenient_def by (rule ToStruct_body_skip[OF c k])
  show "ToStruct_lenient L fl s (PtrTo (StructObj [ef])) = (PtrTo (StructObj [ef]), None)"
    using c k by (simp add: ToStruct_lenient_def setField_unsupported split: option.splits)
  assume "ToMap f s = Inr m"
  then show "ToStruct L f s (PtrTo (StructObj [ef])) = (PtrTo (StructObj [ef]), None)"
    using c k by (simp add: ToStruct_def setField_unsupported split: option.splits)
qed

text \<open>The theorem at a field of kind map whose tag \<open>a\<close> is a key of the map.\<close>

theorem ToStruct_skips_unsupported_kinds_witness:
  "CanSet \<lparr> Name = ''M'', Tag = ''a'', Exported = True, Kind = MapK, Val = OtherV () \<rparr>
   \<and> MapK \<notin> supported
   \<and> ToMap (New ''/a/{a}/b/{b}/c/{c}/d/{d}'') ''/a/abc/b/123'' = Inr [''a'' \<mapsto> ''abc'', ''b'' \<mapsto> ''123'']
   \<and> setField dec_stdlib \<lparr> Name = ''M'', Tag = ''a'', Exported = True, Kind = MapK, Val = OtherV () \<rparr> ''abc''
        = Inr \<lparr> Name = ''M'', Tag = ''a'', Exported = True, Kind = MapK, Val = OtherV () \<rparr>
   \<and> ToStruct dec_stdlib (New ''/a/{a}/b/{b}/c/{c}/d/{d}'') ''/a/abc/b/123''
        (PtrTo (StructObj [\<lparr> Name = ''M'', Tag = ''a'', Exported = True, Kind = MapK, Val = OtherV () \<rparr>]))
      = (PtrTo (StructObj [\<lparr> Name = ''M'', Tag = ''a'', Exported = True, Kind = MapK, Val = OtherV () \<rparr>]), None)"
proof -
  let ?M = "\<lparr> Name = ''M'', Tag = ''a'', Exported = True, Kind = MapK, Val = OtherV () \<rparr> :: unit field"
  have h1: "CanSet ?M" by (simp add: CanSet_def)
  have h2: "MapK \<notin> supported" by (simp add: supported_def)
  have h3: "ToMap (New ''/a/{a}/b/{b}/c/{c}/d/{d}'') ''/a/abc/b/123'' = Inr [''a'' \<mapsto> ''abc'', ''b'' \<mapsto> ''123'']"
    by (rule ToMap_abc_123)
  have h: "CanSet ?M \<and> Kind ?M \<notin> supported" using h1 h2 by simp
  note inst = ToStruct_skips_unsupported_kinds[where ef = ?M and L = dec_stdlib and v = "''abc''"
      and f = "New ''/a/{a}/b/{b}/c/{c}/d/{d}''" and s = "''/a/abc/b/123''"
      and m = "[''a'' \<mapsto> ''abc'', ''b'' \<mapsto> ''123'']", THEN mp, OF h]
  from inst have c1: "setField dec_stdlib ?M ''abc'' = Inr ?M" by (rule conjunct1)
  from inst h3 have c2: "ToStruct dec_stdlib (New ''/a/{a}/b/{b}/c/{c}/d/{d}'') ''/a/abc/b/123''
        (PtrTo (StructObj [?M])) = (PtrTo (StructObj [?M]), None)"
    by blast
  from h1 h2 h3 c1 c2 show ?thesis by blast
qed

section \<open>Fields without a tag\<close>

text \<open>
  Claim C1 says that \<open>ToStruct\<close> never changes a field without a \<open>path\<close> tag, whatever
  the map holds. The loop has no test for a missing tag on a settable field: it looks up
  the empty tag in the map. In the lenient version the token \<open>{}\<close> of a template is a
  named part with the empty name, so the map has the empty key, and the call below sets
  the untagged field \<open>F\<close> to \<open>x\<close>.
\<close>

theorem ToStruct_lenient_sets_untagged_field:
  "ToMap_lenient (New_lenient ''/{}'') ''/x'' [] = Some ''x''
   \<and> ToStruct_lenient L (New_lenient ''/{}'') ''/x''
       (PtrTo (StructObj [\<lparr> Name = ''F'', Tag = [], Exported = True, Kind = StringK, Val = StringV [] \<rparr>]))
     = (PtrTo (StructObj [\<lparr> Name = ''F'', Tag = [], Exported = True, Kind = StringK, Val = StringV ''x'' \<rparr>]), None)"
proof -
  have n: "New_lenient ''/{}'' = \<lparr> namedParts = [\<lparr> name = [], index = 0 \<rparr>] \<rparr>"
    by (simp add: New_lenient_def string_defs)
  have s: "split ''/x'' = [''x'']" by (simp add: string_defs)
  have m: "ToMap_lenient (New_lenient ''/{}'') ''/x'' = [[] \<mapsto> ''x'']"
    by (simp add: ToMap_lenient_def n s)
  show ?thesis
    by (simp add: ToStruct_lenient_def m CanSet_def setField_def)
qed

end
